theory Spec2Isabelle
  imports Complex_Main "HOL-Library.Sublist"
begin

section \<open>Size-class selectors\<close>

text \<open>
  The three variants of the collage maker size their grid from the photo count
  (\<open>photos.length\<close>, a natural number).  The selectors call
  \<open>Math.ceil(Math.sqrt(x))\<close>.  For a non-negative \<open>x\<close> that is the least natural
  \<open>k\<close> with \<open>x \<le> k * k\<close>; \<open>sqrt_search\<close> finds it by counting up.  The argument
  is a photo count scaled by \<open>1\<close>, \<open>1.2\<close> or \<open>1.5\<close>, written here as the fraction
  \<open>num / den\<close> of naturals, so that \<open>x \<le> k * k\<close> reads \<open>num * n \<le> den * (k * k)\<close>.
  A photo count is an array length; on array lengths the double-precision square root
  rounds to the same ceiling, and the clamped selectors only compare the scaled count
  with 4, 9, 16 and 25.
\<close>

function sqrt_search :: "nat \<Rightarrow> nat \<Rightarrow> nat \<Rightarrow> nat \<Rightarrow> nat" where
  "sqrt_search num den n k =
     (if den = 0 \<or> num * n \<le> den * (k * k) then k else sqrt_search num den n (Suc k))"
  by pat_completeness auto
termination
proof (relation "measure (\<lambda>(num, den, n, k). num * n - k)")
  show "wf (measure (\<lambda>(num, den, n, k). num * n - k))" by simp
next
  fix num den n k :: nat
  assume a: "\<not> (den = 0 \<or> num * n \<le> den * (k * k))"
  then have d: "0 < den" and lt: "den * (k * k) < num * n" by auto
  have "k \<le> k * k" by (cases k) auto
  also have "k * k \<le> den * (k * k)" using d by simp
  finally have "k < num * n" using lt by linarith
  then show "((num, den, n, Suc k), (num, den, n, k)) \<in> measure (\<lambda>(num, den, n, k). num * n - k)"
    by simp
qed

declare sqrt_search.simps [simp del]

definition ceil_sqrt_scaled :: "nat \<Rightarrow> nat \<Rightarrow> nat \<Rightarrow> nat" where
  "ceil_sqrt_scaled num den n = sqrt_search num den n 0"

definition ceil_sqrt :: "nat \<Rightarrow> nat" where
  "ceil_sqrt n = ceil_sqrt_scaled 1 1 n"

subsection \<open>Fixed strategy: \<open>getLayoutConfig\<close>\<close>

record config =
  rows :: nat
  cols :: nat
  type :: string

definition getLayoutConfig :: "nat \<Rightarrow> config" where
  "getLayoutConfig photoCount =
    (if photoCount \<le> 1 then \<lparr>rows = 1, cols = 1, type = ''single''\<rparr>
     else if photoCount \<le> 4 then \<lparr>rows = 2, cols = 2, type = ''grid''\<rparr>
     else if photoCount \<le> 6 then \<lparr>rows = 2, cols = 3, type = ''grid''\<rparr>
     else if photoCount \<le> 9 then \<lparr>rows = 3, cols = 3, type = ''complex''\<rparr>
     else if photoCount \<le> 12 then \<lparr>rows = 3, cols = 4, type = ''complex''\<rparr>
     else if photoCount \<le> 16 then \<lparr>rows = 4, cols = 4, type = ''complex''\<rparr>
     else if photoCount \<le> 20 then \<lparr>rows = 4, cols = 5, type = ''ultra''\<rparr>
     else if photoCount \<le> 25 then \<lparr>rows = 5, cols = 5, type = ''ultra''\<rparr>
     else if photoCount \<le> 30 then \<lparr>rows = 5, cols = 6, type = ''mega''\<rparr>
     else if photoCount \<le> 36 then \<lparr>rows = 6, cols = 6, type = ''mega''\<rparr>
     else if photoCount \<le> 42 then \<lparr>rows = 6, cols = 7, type = ''extreme''\<rparr>
     else if photoCount \<le> 49 then \<lparr>rows = 7, cols = 7, type = ''extreme''\<rparr>
     else if photoCount \<le> 56 then \<lparr>rows = 7, cols = 8, type = ''insane''\<rparr>
     else if photoCount \<le> 64 then \<lparr>rows = 8, cols = 8, type = ''insane''\<rparr>
     else if photoCount \<le> 81 then \<lparr>rows = 9, cols = 9, type = ''infinite''\<rparr>
     else if photoCount \<le> 100 then \<lparr>rows = 10, cols = 10, type = ''infinite''\<rparr>
     else (let gridSize = ceil_sqrt photoCount
           in \<lparr>rows = gridSize, cols = gridSize, type = ''infinite''\<rparr>))"

subsection \<open>Responsive strategy: \<open>getResponsiveGridSize\<close>\<close>

text \<open>
  \<open>screenSize\<close> is component state that \<open>updateScreenSize\<close> only ever sets to one of
  four strings, so the \<open>|| 4\<close> fallback of the lookup is never taken.
\<close>

datatype viewport = Mobile | Tablet | Laptop | Desktop

definition getResponsiveGridSize :: "nat \<Rightarrow> viewport \<Rightarrow> nat" where
  "getResponsiveGridSize photoCount screenSize =
    (case screenSize of
       Mobile \<Rightarrow> min 3 (max 2 (ceil_sqrt photoCount))
     | Tablet \<Rightarrow> min 4 (max 3 (ceil_sqrt photoCount))
     | Laptop \<Rightarrow> min 5 (max 4 (ceil_sqrt_scaled 12 10 photoCount))
     | Desktop \<Rightarrow> min 6 (max 4 (ceil_sqrt_scaled 15 10 photoCount)))"

subsection \<open>Uniform strategy: \<open>getGridSize\<close>\<close>

definition getGridSize :: "nat \<Rightarrow> nat" where
  "getGridSize photoCount =
    (if photoCount = 1 then 1
     else if photoCount \<le> 4 then 2
     else if photoCount \<le> 9 then 3
     else if photoCount \<le> 16 then 4
     else if photoCount \<le> 25 then 5
     else 6)"

section \<open>Uniform grid placer: \<open>getGridPosition\<close>\<close>

text \<open>
  The placer returns the row and the column as decimal strings for the style sheet;
  the model keeps the numbers that are printed.
\<close>

record position =
  prow :: nat
  pcol :: nat

definition getGridPosition :: "nat \<Rightarrow> config \<Rightarrow> position" where
  "getGridPosition index cfg =
    (if type cfg = ''single'' then \<lparr>prow = 1, pcol = 1\<rparr>
     else \<lparr>prow = index div cols cfg + 1, pcol = index mod cols cfg + 1\<rparr>)"

section \<open>Mosaic placer: \<open>generateMosaicLayout\<close>\<close>

record layout =
  size :: string
  row :: nat
  col :: nat
  rowSpan :: nat
  colSpan :: nat

record pattern =
  psize :: string
  prowSpan :: nat
  pcolSpan :: nat

text \<open>
  The variables the placement loop mutates.  \<open>occupiedCells\<close> is a \<open>Set\<close> of keys
  \<open>"r-c"\<close>; the model keeps the pairs \<open>(r, c)\<close> in a duplicate-free list.
\<close>

record locals =
  layouts :: "layout list"
  currentRow :: nat
  currentCol :: nat
  occupiedCells :: "(nat \<times> nat) list"

text \<open>The inner \<open>while\<close> loop: skip occupied cells in row-major order.\<close>

function next_free :: "nat \<Rightarrow> (nat \<times> nat) list \<Rightarrow> nat \<Rightarrow> nat \<Rightarrow> nat \<times> nat" where
  "next_free gridSize occ r c =
     (if (r, c) \<in> set occ
      then (if c + 1 > gridSize then next_free gridSize occ (r + 1) 1
            else next_free gridSize occ r (c + 1))
      else (r, c))"
  by pat_completeness auto
termination
proof (relation "measures [\<lambda>(g, occ, r, c). Suc (Max (insert 0 (fst ` set occ))) - r,
                           \<lambda>(g, occ, r, c). g - c]")
  show "wf (measures [\<lambda>(g, occ, r, c). Suc (Max (insert 0 (fst ` set occ))) - r,
                      \<lambda>(g, occ, r, c). g - c])"
    by simp
next
  fix gridSize r c :: nat and occ :: "(nat \<times> nat) list"
  assume "(r, c) \<in> set occ"
  then have "r \<in> insert 0 (fst ` set occ)" by force
  then have "r \<le> Max (insert 0 (fst ` set occ))" by (intro Max_ge) simp_all
  then have "Suc (Max (insert 0 (fst ` set occ))) - (r + 1)
      < Suc (Max (insert 0 (fst ` set occ))) - r" by arith
  then show "((gridSize, occ, r + 1, 1), (gridSize, occ, r, c))
      \<in> measures [\<lambda>(g, occ, r, c). Suc (Max (insert 0 (fst ` set occ))) - r,
                   \<lambda>(g, occ, r, c). g - c]"
    by simp
next
  fix gridSize r c :: nat and occ :: "(nat \<times> nat) list"
  assume "(r, c) \<in> set occ" and "\<not> gridSize < c + 1"
  then show "((gridSize, occ, r, c + 1), (gridSize, occ, r, c))
      \<in> measures [\<lambda>(g, occ, r, c). Suc (Max (insert 0 (fst ` set occ))) - r,
                   \<lambda>(g, occ, r, c). g - c]"
    by simp
qed

declare next_free.simps [simp del]

text \<open>The cells \<open>(r, c)\<close> with \<open>r0 \<le> r \<le> r1\<close> and \<open>c0 \<le> c \<le> c1\<close>, in the order
  the nested \<open>for\<close> loops visit them.\<close>

definition span_cells :: "nat \<Rightarrow> nat \<Rightarrow> nat \<Rightarrow> nat \<Rightarrow> (nat \<times> nat) list" where
  "span_cells r0 r1 c0 c1 = List.product [r0..<Suc r1] [c0..<Suc c1]"

definition add_cell :: "(nat \<times> nat) list \<Rightarrow> nat \<times> nat \<Rightarrow> (nat \<times> nat) list" where
  "add_cell occ cell = List.insert cell occ"

definition advance :: "nat \<Rightarrow> locals \<Rightarrow> locals" where
  "advance gridSize st =
     (if currentCol st + 1 > gridSize
      then st\<lparr>currentCol := 1, currentRow := currentRow st + 1\<rparr>
      else st\<lparr>currentCol := currentCol st + 1\<rparr>)"

definition small_at :: "nat \<Rightarrow> nat \<Rightarrow> layout" where
  "small_at r c = \<lparr>size = ''small'', row = r, col = c, rowSpan = 1, colSpan = 1\<rparr>"

text \<open>One iteration of the \<open>for\<close> loop, for the pattern chosen at this index.\<close>

definition place :: "nat \<Rightarrow> pattern \<Rightarrow> locals \<Rightarrow> locals" where
  "place gridSize pat st =
     (let (r, c) = next_free gridSize (occupiedCells st) (currentRow st) (currentCol st);
          endRow = r + prowSpan pat - 1;
          endCol = c + pcolSpan pat - 1;
          occ = occupiedCells st;
          (lay, occ') =
            (if endRow > gridSize \<or> endCol > gridSize
             then (small_at r c, add_cell occ (r, c))
             else if list_all (\<lambda>cell. cell \<notin> set occ) (span_cells r endRow c endCol)
             then (\<lparr>size = psize pat, row = r, col = c,
                     rowSpan = prowSpan pat, colSpan = pcolSpan pat\<rparr>,
                   fold (\<lambda>cell acc. add_cell acc cell) (span_cells r endRow c endCol) occ)
             else (small_at r c, add_cell occ (r, c)))
      in advance gridSize
           (st\<lparr>layouts := layouts st @ [lay], currentRow := r, currentCol := c,
               occupiedCells := occ'\<rparr>))"

text \<open>The \<open>for\<close> loop from index \<open>i\<close>, with \<open>k\<close> iterations left
  (\<open>k = photoCount - i\<close>).\<close>

fun mosaic_loop :: "nat \<Rightarrow> pattern list \<Rightarrow> nat \<Rightarrow> nat \<Rightarrow> locals \<Rightarrow> locals" where
  "mosaic_loop gridSize patterns i 0 st = st"
| "mosaic_loop gridSize patterns i (Suc k) st =
     mosaic_loop gridSize patterns (Suc i) k
       (place gridSize (patterns ! (i mod length patterns)) st)"

definition mobile_patterns :: "pattern list" where
  "mobile_patterns =
    [\<lparr>psize = ''medium'', prowSpan = 1, pcolSpan = 2\<rparr>,
     \<lparr>psize = ''small'', prowSpan = 1, pcolSpan = 1\<rparr>,
     \<lparr>psize = ''wide'', prowSpan = 1, pcolSpan = 3\<rparr>]"

definition wide_patterns :: "pattern list" where
  "wide_patterns =
    [\<lparr>psize = ''large'', prowSpan = 2, pcolSpan = 2\<rparr>,
     \<lparr>psize = ''wide'', prowSpan = 1, pcolSpan = 3\<rparr>,
     \<lparr>psize = ''tall'', prowSpan = 3, pcolSpan = 1\<rparr>,
     \<lparr>psize = ''medium'', prowSpan = 1, pcolSpan = 2\<rparr>,
     \<lparr>psize = ''small'', prowSpan = 1, pcolSpan = 1\<rparr>]"

text \<open>The declarations of the loop's variables: \<open>layouts = []\<close>, \<open>currentRow = 1\<close>,
  \<open>currentCol = 1\<close>, \<open>occupiedCells = new Set()\<close>.\<close>

definition fresh_locals :: locals where
  "fresh_locals = \<lparr>layouts = [], currentRow = 1, currentCol = 1, occupiedCells = []\<rparr>"

text \<open>
  \<open>generateMosaicLayout\<close> takes the photo count and reads \<open>screenSize\<close> from the
  component state; the model passes both.
  \<open>Math.floor(gridSize * 0.6)\<close> is \<open>(gridSize * 6) div 10\<close> on the grid sizes 2 to 6
  that the selector returns, \<open>Math.floor(mediumSpan / 2) || 1\<close> replaces a zero by one,
  and \<open>Math.ceil(mediumSpan / 2)\<close> is \<open>(mediumSpan + 1) div 2\<close>.
\<close>

definition generateMosaicLayout :: "nat \<Rightarrow> viewport \<Rightarrow> layout list" where
  "generateMosaicLayout photoCount screenSize =
    (let gridSize = getResponsiveGridSize photoCount screenSize in
     if screenSize = Mobile \<and> photoCount = 1 then
       [\<lparr>size = ''large'', row = 1, col = 1, rowSpan = 2, colSpan = 2\<rparr>]
     else if screenSize = Mobile \<and> photoCount = 2 then
       [\<lparr>size = ''medium'', row = 1, col = 1, rowSpan = 1, colSpan = 2\<rparr>,
        \<lparr>size = ''medium'', row = 2, col = 1, rowSpan = 1, colSpan = 2\<rparr>]
     else if screenSize = Mobile \<and> photoCount = 3 then
       [\<lparr>size = ''medium'', row = 1, col = 1, rowSpan = 1, colSpan = 2\<rparr>,
        \<lparr>size = ''small'', row = 2, col = 1, rowSpan = 1, colSpan = 1\<rparr>,
        \<lparr>size = ''small'', row = 2, col = 2, rowSpan = 1, colSpan = 1\<rparr>]
     else if photoCount = 1 then
       (let span = (if screenSize = Mobile then 2 else 4)
        in [\<lparr>size = ''large'', row = 1, col = 1, rowSpan = span, colSpan = span\<rparr>])
     else if photoCount = 2 then
       (let span = gridSize div 2
        in [\<lparr>size = ''large'', row = 1, col = 1, rowSpan = gridSize, colSpan = span\<rparr>,
            \<lparr>size = ''large'', row = 1, col = span + 1, rowSpan = gridSize, colSpan = span\<rparr>])
     else if photoCount = 3 then
       (let largePan = (gridSize * 6) div 10;
            mediumSpan = gridSize - largePan
        in [\<lparr>size = ''large'', row = 1, col = 1, rowSpan = largePan, colSpan = largePan\<rparr>,
            \<lparr>size = ''medium'', row = 1, col = largePan + 1,
             rowSpan = (if mediumSpan div 2 = 0 then 1 else mediumSpan div 2),
             colSpan = mediumSpan\<rparr>,
            \<lparr>size = ''medium'', row = mediumSpan div 2 + 2, col = largePan + 1,
             rowSpan = (mediumSpan + 1) div 2, colSpan = mediumSpan\<rparr>])
     else
       (let patterns = (if screenSize = Mobile then mobile_patterns else wide_patterns)
        in layouts (mosaic_loop gridSize patterns 0 photoCount fresh_locals)))"

section \<open>Photo collection\<close>

text \<open>
  A photo carries an \<open>id\<close> and its \<open>src\<close>; the other fields (timestamp, aspect ratio,
  orientation, width, height) ride along in the record extension.
\<close>

record 'i photo =
  ident :: 'i
  src :: string

definition removePhoto :: "'i \<Rightarrow> ('i, 'm) photo_scheme list \<Rightarrow> ('i, 'm) photo_scheme list" where
  "removePhoto i prev = filter (\<lambda>photo. ident photo \<noteq> i) prev"

text \<open>
  \<open>capturePhoto\<close> of the first two variants: the handler reads the clock
  (\<open>Date.now()\<close>, whole milliseconds) when the captured image has loaded and appends a
  photo whose id is that reading; a missing screenshot (\<open>None\<close>) appends nothing.
\<close>

definition capturePhoto :: "int \<Rightarrow> string option \<Rightarrow> int photo list \<Rightarrow> int photo list" where
  "capturePhoto now imageSrc prev =
     (case imageSrc of
        None \<Rightarrow> prev
      | Some s \<Rightarrow> prev @ [\<lparr>ident = now, src = s\<rparr>])"

text \<open>
  \<open>addPhoto\<close> of the third variant and the upload handlers: the id is
  \<open>Date.now() + Math.random()\<close>.  The sum is taken in double precision; the model
  takes that addition as the parameter \<open>js_add\<close>.
\<close>

definition addPhoto :: "(int \<Rightarrow> 'r \<Rightarrow> 'i) \<Rightarrow> int \<Rightarrow> 'r \<Rightarrow> string \<Rightarrow> 'i photo list \<Rightarrow> 'i photo list" where
  "addPhoto js_add now rnd s prev = prev @ [\<lparr>ident = js_add now rnd, src = s\<rparr>]"

section \<open>Export of the uniform variant: \<open>downloadCollage\<close>\<close>

text \<open>The photos that \<open>downloadCollage\<close> clones into the container it rasterises.\<close>

definition downloadCollage :: "'a list \<Rightarrow> 'a list" where
  "downloadCollage photos =
     (if length photos = 0 then []
      else (let gridSize = getGridSize (length photos)
            in map snd (filter (\<lambda>(index, photo). index < gridSize * gridSize)
                          (zip [0..<length photos] photos))))"

section \<open>Rectangles of a plan\<close>






section \<open>Properties of the square-root search\<close>

lemma sqrt_search_sound:
  "0 < den \<Longrightarrow> num * n \<le> den * (sqrt_search num den n k * sqrt_search num den n k)"
proof (induction num den n k rule: sqrt_search.induct)
  case (1 num den n k)
  show ?case
  proof (cases "num * n \<le> den * (k * k)")
    case True
    then have "sqrt_search num den n k = k" by (subst sqrt_search.simps) simp
    with True show ?thesis by simp
  next
    case False
    with "1.prems" have "sqrt_search num den n k = sqrt_search num den n (Suc k)"
      by (subst sqrt_search.simps) simp
    moreover have "num * n \<le> den * (sqrt_search num den n (Suc k) * sqrt_search num den n (Suc k))"
      using "1.IH" "1.prems" False by simp
    ultimately show ?thesis by simp
  qed
qed

lemma sqrt_search_least:
  "num * n \<le> den * (j * j) \<Longrightarrow> k \<le> j \<Longrightarrow> sqrt_search num den n k \<le> j"
proof (induction num den n k rule: sqrt_search.induct)
  case (1 num den n k)
  show ?case
  proof (cases "den = 0 \<or> num * n \<le> den * (k * k)")
    case True
    then have "sqrt_search num den n k = k" by (subst sqrt_search.simps) simp
    with "1.prems" show ?thesis by simp
  next
    case False
    then have eq: "sqrt_search num den n k = sqrt_search num den n (Suc k)"
      by (subst sqrt_search.simps) simp
    have "k \<noteq> j" using False "1.prems"(1) by auto
    with "1.prems"(2) have "Suc k \<le> j" by simp
    with "1.IH" False "1.prems"(1) eq show ?thesis by simp
  qed
qed

lemma ceil_sqrt_scaled_sound:
  "0 < den \<Longrightarrow> num * n \<le> den * (ceil_sqrt_scaled num den n * ceil_sqrt_scaled num den n)"
  unfolding ceil_sqrt_scaled_def by (rule sqrt_search_sound)

lemma ceil_sqrt_scaled_least:
  "num * n \<le> den * (j * j) \<Longrightarrow> ceil_sqrt_scaled num den n \<le> j"
  unfolding ceil_sqrt_scaled_def by (rule sqrt_search_least) simp_all

lemma ceil_sqrt_scaled_covers:
  assumes "0 < den" and "den \<le> num"
  shows "n \<le> ceil_sqrt_scaled num den n * ceil_sqrt_scaled num den n"
proof -
  let ?c = "ceil_sqrt_scaled num den n"
  have "den * n \<le> num * n" using assms(2) by simp
  also have "\<dots> \<le> den * (?c * ?c)" using assms(1) by (rule ceil_sqrt_scaled_sound)
  finally show ?thesis using assms(1) by simp
qed

lemma ceil_sqrt_covers: "n \<le> ceil_sqrt n * ceil_sqrt n"
  unfolding ceil_sqrt_def by (rule ceil_sqrt_scaled_covers) simp_all

lemma ceil_sqrt_least: "n \<le> j * j \<Longrightarrow> ceil_sqrt n \<le> j"
  unfolding ceil_sqrt_def by (rule ceil_sqrt_scaled_least) simp

lemma ceil_sqrt_pos: "0 < n \<Longrightarrow> 0 < ceil_sqrt n"
  using ceil_sqrt_covers [of n] by (cases "ceil_sqrt n") auto

text \<open>
  The search computes what the source asks for: the ceiling of the real square root of
  the scaled count.
\<close>

lemma ceil_sqrt_scaled_ceiling:
  assumes "0 < den"
  shows "int (ceil_sqrt_scaled num den n) = \<lceil>sqrt (real (num * n) / real den)\<rceil>"
proof -
  let ?k = "ceil_sqrt_scaled num den n"
  let ?x = "real (num * n) / real den"
  have d: "0 < real den" using assms by simp
  have "real (num * n) \<le> real (den * (?k * ?k))"
    using ceil_sqrt_scaled_sound [OF assms, of num n] by (simp only: of_nat_le_iff)
  then have "?x \<le> (real ?k)\<^sup>2"
    using d by (simp add: divide_le_eq power2_eq_square mult.commute)
  then have up: "sqrt ?x \<le> real ?k" by (intro real_le_lsqrt) simp_all
  have low: "real ?k - 1 < sqrt ?x"
  proof (cases ?k)
    case 0
    have "0 \<le> sqrt ?x" by simp
    then have "- 1 < sqrt ?x" by linarith
    with 0 show ?thesis by simp
  next
    case (Suc j)
    have "\<not> num * n \<le> den * (j * j)"
    proof
      assume "num * n \<le> den * (j * j)"
      then have "?k \<le> j" by (rule ceil_sqrt_scaled_least)
      with Suc show False by simp
    qed
    then have "real (den * (j * j)) < real (num * n)" by (simp only: of_nat_less_iff)
    then have "(real j)\<^sup>2 < ?x"
      using d by (simp add: less_divide_eq power2_eq_square mult.commute)
    then have "real j < sqrt ?x" by (intro real_less_rsqrt)
    with Suc show ?thesis by simp
  qed
  have "\<lceil>sqrt ?x\<rceil> = int ?k"
    by (rule ceiling_unique) (use low up in simp_all)
  then show ?thesis by simp
qed

lemma ceil_sqrt_ceiling: "int (ceil_sqrt n) = \<lceil>sqrt (real n)\<rceil>"
  using ceil_sqrt_scaled_ceiling [of 1 1 n] by (simp add: ceil_sqrt_def)

text \<open>A size clamped into \<open>[lo, hi]\<close> still covers \<open>n\<close> exactly when \<open>hi\<close> does.\<close>

lemma clamp_covers:
  fixes c lo hi n :: nat
  assumes "n \<le> c * c" and "lo \<le> hi"
  shows "(n \<le> min hi (max lo c) * min hi (max lo c)) = (n \<le> hi * hi)"
proof
  assume a: "n \<le> min hi (max lo c) * min hi (max lo c)"
  have "min hi (max lo c) * min hi (max lo c) \<le> hi * hi" by (intro mult_le_mono) simp_all
  with a show "n \<le> hi * hi" by (rule order_trans)
next
  assume b: "n \<le> hi * hi"
  show "n \<le> min hi (max lo c) * min hi (max lo c)"
  proof (cases "c \<le> hi")
    case True
    then have "c \<le> min hi (max lo c)" by simp
    then have "c * c \<le> min hi (max lo c) * min hi (max lo c)" by (intro mult_le_mono)
    with assms(1) show ?thesis by (rule order_trans)
  next
    case False
    then have "min hi (max lo c) = hi" using assms(2) by simp
    with b show ?thesis by simp
  qed
qed

lemma getLayoutConfig_capacity:
  "photoCount \<le> rows (getLayoutConfig photoCount) * cols (getLayoutConfig photoCount)"
  using ceil_sqrt_covers [of photoCount] by (simp add: getLayoutConfig_def Let_def)

lemma getResponsiveGridSize_capacity:
  "(photoCount \<le> getResponsiveGridSize photoCount screenSize
                   * getResponsiveGridSize photoCount screenSize)
   = (photoCount \<le> (case screenSize of Mobile \<Rightarrow> 9 | Tablet \<Rightarrow> 16 | Laptop \<Rightarrow> 25 | Desktop \<Rightarrow> 36))"
proof (cases screenSize)
  case Mobile
  show ?thesis using clamp_covers [OF ceil_sqrt_covers, of 2 3 photoCount]
    by (simp add: Mobile getResponsiveGridSize_def)
next
  case Tablet
  show ?thesis using clamp_covers [OF ceil_sqrt_covers, of 3 4 photoCount]
    by (simp add: Tablet getResponsiveGridSize_def)
next
  case Laptop
  have "photoCount \<le> ceil_sqrt_scaled 12 10 photoCount * ceil_sqrt_scaled 12 10 photoCount"
    by (rule ceil_sqrt_scaled_covers) simp_all
  from clamp_covers [OF this, of 4 5] show ?thesis
    by (simp add: Laptop getResponsiveGridSize_def)
next
  case Desktop
  have "photoCount \<le> ceil_sqrt_scaled 15 10 photoCount * ceil_sqrt_scaled 15 10 photoCount"
    by (rule ceil_sqrt_scaled_covers) simp_all
  from clamp_covers [OF this, of 4 6] show ?thesis
    by (simp add: Desktop getResponsiveGridSize_def)
qed

lemma getGridSize_capacity:
  "(photoCount \<le> getGridSize photoCount * getGridSize photoCount) = (photoCount \<le> 36)"
  by (simp add: getGridSize_def)


section \<open>Claims about the size-class selectors\<close>

text \<open>
  C1 (as amended).  \<open>getLayoutConfig\<close> always has room for every photo.
  \<open>getResponsiveGridSize\<close> clamps its grid, so it has room for \<open>count\<close> photos exactly
  when \<open>count\<close> is at most 9 (mobile), 16 (tablet), 25 (laptop) or 36 (desktop);
  \<open>getGridSize\<close> stops at 6, so it has room exactly when \<open>count\<close> is at most 36.
\<close>

theorem selector_capacity:
  "count \<le> rows (getLayoutConfig count) * cols (getLayoutConfig count)
   \<and> (count \<le> getResponsiveGridSize count screenSize * getResponsiveGridSize count screenSize)
       = (count \<le> (case screenSize of Mobile \<Rightarrow> 9 | Tablet \<Rightarrow> 16 | Laptop \<Rightarrow> 25 | Desktop \<Rightarrow> 36))
   \<and> (count \<le> getGridSize count * getGridSize count) = (count \<le> 36)"
  using getLayoutConfig_capacity getResponsiveGridSize_capacity getGridSize_capacity
  by blast

text \<open>
  C1 as stated fails: ten photos on a mobile viewport get a 3 by 3 grid, and 37 photos
  under the uniform strategy get a 6 by 6 grid.
\<close>

theorem selector_capacity_counterexample:
  "getResponsiveGridSize 10 Mobile = 3
   \<and> \<not> 10 \<le> getResponsiveGridSize 10 Mobile * getResponsiveGridSize 10 Mobile
   \<and> getGridSize 37 = 6
   \<and> \<not> 37 \<le> getGridSize 37 * getGridSize 37"
proof -
  have "ceil_sqrt 10 \<le> 4" by (rule ceil_sqrt_least) simp
  moreover have "\<not> ceil_sqrt 10 \<le> 3"
  proof
    assume "ceil_sqrt 10 \<le> 3"
    then have "ceil_sqrt 10 * ceil_sqrt 10 \<le> 3 * 3" by (intro mult_le_mono)
    with ceil_sqrt_covers [of 10] show False by simp
  qed
  ultimately have "ceil_sqrt 10 = 4" by simp
  then have "getResponsiveGridSize 10 Mobile = 3" by (simp add: getResponsiveGridSize_def)
  then show ?thesis by (simp add: getGridSize_def)
qed

text \<open>
  C10.  Whatever the photo count, the responsive grid size lies in \<open>[2, 3]\<close> on mobile,
  \<open>[3, 4]\<close> on a tablet, \<open>[4, 5]\<close> on a laptop and \<open>[4, 6]\<close> on a desktop, so the
  grid never has more than 36 cells, and never more than 9 on mobile.
\<close>

theorem responsive_grid_bounds:
  "2 \<le> getResponsiveGridSize photoCount Mobile \<and> getResponsiveGridSize photoCount Mobile \<le> 3
   \<and> 3 \<le> getResponsiveGridSize photoCount Tablet \<and> getResponsiveGridSize photoCount Tablet \<le> 4
   \<and> 4 \<le> getResponsiveGridSize photoCount Laptop \<and> getResponsiveGridSize photoCount Laptop \<le> 5
   \<and> 4 \<le> getResponsiveGridSize photoCount Desktop \<and> getResponsiveGridSize photoCount Desktop \<le> 6
   \<and> getResponsiveGridSize photoCount screenSize * getResponsiveGridSize photoCount screenSize \<le> 36
   \<and> getResponsiveGridSize photoCount Mobile * getResponsiveGridSize photoCount Mobile \<le> 9"
proof -
  have le6: "getResponsiveGridSize photoCount screenSize \<le> 6"
    by (cases screenSize) (simp_all add: getResponsiveGridSize_def)
  have "getResponsiveGridSize photoCount screenSize * getResponsiveGridSize photoCount screenSize
          \<le> 6 * 6"
    using le6 by (intro mult_le_mono)
  moreover have le3: "getResponsiveGridSize photoCount Mobile \<le> 3"
    by (simp add: getResponsiveGridSize_def)
  have "getResponsiveGridSize photoCount Mobile * getResponsiveGridSize photoCount Mobile \<le> 3 * 3"
    using le3 by (intro mult_le_mono)
  ultimately show ?thesis by (simp add: getResponsiveGridSize_def)
qed


section \<open>Claims about the uniform strategy\<close>

lemma take_by_index:
  "map snd (filter (\<lambda>(index, photo). index < k) (zip [0..<length xs] xs)) = take k xs"
proof (induction xs rule: rev_induct)
  case Nil
  show ?case by simp
next
  case (snoc x xs)
  have z: "zip [0..<length (xs @ [x])] (xs @ [x]) = zip [0..<length xs] xs @ [(length xs, x)]"
    by simp
  show ?case
  proof (cases "length xs < k")
    case True
    then show ?thesis using snoc.IH by (simp only: z) simp
  next
    case False
    then show ?thesis using snoc.IH by (simp only: z) simp
  qed
qed

lemma downloadCollage_take:
  "downloadCollage photos
     = take (getGridSize (length photos) * getGridSize (length photos)) photos"
proof (cases "length photos = 0")
  case True
  then show ?thesis by (simp add: downloadCollage_def)
next
  case False
  then show ?thesis by (simp only: downloadCollage_def Let_def take_by_index if_False)
qed

text \<open>
  C5.  \<open>getGridSize\<close> maps one photo to 1, two to four photos to 2, five to nine to 3,
  ten to sixteen to 4, seventeen to twenty-five to 5 and every larger count to 6; and the
  export keeps only the photos at indices below \<open>gridSize * gridSize\<close>, which for more
  than 36 photos are the first 36.
\<close>

theorem uniform_steps_and_truncation:
  "getGridSize 1 = 1
   \<and> (2 \<le> n \<and> n \<le> 4 \<longrightarrow> getGridSize n = 2)
   \<and> (5 \<le> n \<and> n \<le> 9 \<longrightarrow> getGridSize n = 3)
   \<and> (10 \<le> n \<and> n \<le> 16 \<longrightarrow> getGridSize n = 4)
   \<and> (17 \<le> n \<and> n \<le> 25 \<longrightarrow> getGridSize n = 5)
   \<and> (26 \<le> n \<longrightarrow> getGridSize n = 6)
   \<and> downloadCollage photos
       = take (getGridSize (length photos) * getGridSize (length photos)) photos
   \<and> (36 < length photos \<longrightarrow>
        downloadCollage photos = take 36 photos \<and> length (downloadCollage photos) = 36)"
proof -
  have "36 < length photos \<longrightarrow>
        downloadCollage photos = take 36 photos \<and> length (downloadCollage photos) = 36"
    by (simp add: downloadCollage_take getGridSize_def)
  moreover have "getGridSize 1 = 1
   \<and> (2 \<le> n \<and> n \<le> 4 \<longrightarrow> getGridSize n = 2)
   \<and> (5 \<le> n \<and> n \<le> 9 \<longrightarrow> getGridSize n = 3)
   \<and> (10 \<le> n \<and> n \<le> 16 \<longrightarrow> getGridSize n = 4)
   \<and> (17 \<le> n \<and> n \<le> 25 \<longrightarrow> getGridSize n = 5)
   \<and> (26 \<le> n \<longrightarrow> getGridSize n = 6)"
    by (simp add: getGridSize_def)
  ultimately show ?thesis using downloadCollage_take [of photos] by blast
qed

theorem uniform_steps_and_truncation_witness:
  "getGridSize 1 = 1 \<and> getGridSize 30 = 6
   \<and> downloadCollage [0..<40] = [0..<36] \<and> length (downloadCollage [0..<40]) = 36"
  using uniform_steps_and_truncation [of 30 "[0..<40]"] by (simp add: getGridSize_def)

section \<open>Claims about the uniform grid placer\<close>

lemma getLayoutConfig_single: "(type (getLayoutConfig n) = ''single'') = (n \<le> 1)"
  by (simp add: getLayoutConfig_def Let_def)

lemma getLayoutConfig_cols_pos: "1 \<le> cols (getLayoutConfig n)"
proof (cases "n \<le> 100")
  case True
  then show ?thesis by (simp add: getLayoutConfig_def)
next
  case False
  then have "0 < ceil_sqrt n" by (intro ceil_sqrt_pos) simp
  with False show ?thesis by (simp add: getLayoutConfig_def Let_def)
qed

lemma getLayoutConfig_single_shape:
  "n \<le> 1 \<Longrightarrow> rows (getLayoutConfig n) = 1 \<and> cols (getLayoutConfig n) = 1"
  by (simp add: getLayoutConfig_def)

lemma div_mod_inj:
  fixes i j c :: nat
  assumes "i div c = j div c" and "i mod c = j mod c"
  shows "i = j"
proof -
  have "i = i div c * c + i mod c" by simp
  also have "\<dots> = j div c * c + j mod c" using assms by simp
  also have "\<dots> = j" by simp
  finally show ?thesis .
qed

lemma getGridPosition_formula:
  "type cfg \<noteq> ''single'' \<Longrightarrow>
   getGridPosition i cfg = \<lparr>prow = i div cols cfg + 1, pcol = i mod cols cfg + 1\<rparr>"
  by (simp add: getGridPosition_def)

lemma getGridPosition_inj:
  "type cfg \<noteq> ''single'' \<Longrightarrow> getGridPosition i cfg = getGridPosition j cfg \<Longrightarrow> i = j"
  by (auto simp: getGridPosition_def intro: div_mod_inj)

lemma getGridPosition_layout:
  assumes "i < n"
  shows "getGridPosition i (getLayoutConfig n)
         = \<lparr>prow = i div cols (getLayoutConfig n) + 1, pcol = i mod cols (getLayoutConfig n) + 1\<rparr>"
proof (cases "n \<le> 1")
  case True
  with assms have "i = 0" by simp
  with True show ?thesis
    using getLayoutConfig_single [of n] getLayoutConfig_single_shape [of n]
    by (simp add: getGridPosition_def)
next
  case False
  then have "type (getLayoutConfig n) \<noteq> ''single''" by (simp add: getLayoutConfig_single)
  then show ?thesis by (rule getGridPosition_formula)
qed

lemma getGridPosition_layout_inj:
  assumes "i < n" and "j < n"
    and "getGridPosition i (getLayoutConfig n) = getGridPosition j (getLayoutConfig n)"
  shows "i = j"
proof (cases "n \<le> 1")
  case True
  with assms(1,2) show ?thesis by simp
next
  case False
  then have "type (getLayoutConfig n) \<noteq> ''single''" by (simp add: getLayoutConfig_single)
  then show ?thesis using assms(3) by (rule getGridPosition_inj)
qed


text \<open>
  C4.  The placer is called with an index below the photo count and the config that
  \<open>getLayoutConfig\<close> returns for that count, so a config of type \<open>single\<close> (at most one
  photo) only ever meets index 0.  For every index and every config with \<open>cols\<close> of at
  least 1, where a \<open>single\<close> config meets index 0 only, the placer assigns
  \<open>row = floor(index / cols) + 1\<close> and \<open>col = (index mod cols) + 1\<close>; two such indices
  with the same cell are equal; and recomputing with the same index and \<open>cols\<close> yields
  the same cell.  Every index below \<open>count\<close> with \<open>getLayoutConfig count\<close> is such an
  input, gets the cell of the formula, and shares it with no other index below \<open>count\<close>.
\<close>

theorem grid_position_row_major:
  "(1 \<le> cols cfg \<and> (type cfg = ''single'' \<longrightarrow> index = 0) \<longrightarrow>
      getGridPosition index cfg
        = \<lparr>prow = index div cols cfg + 1, pcol = index mod cols cfg + 1\<rparr>
      \<and> ((type cfg = ''single'' \<longrightarrow> index' = 0)
           \<and> getGridPosition index cfg = getGridPosition index' cfg \<longrightarrow> index = index')
      \<and> (cols cfg' = cols cfg \<and> (type cfg' = ''single'' \<longrightarrow> index = 0) \<longrightarrow>
           getGridPosition index cfg' = getGridPosition index cfg))
   \<and> (index < count \<longrightarrow>
        1 \<le> cols (getLayoutConfig count)
        \<and> (type (getLayoutConfig count) = ''single'' \<longrightarrow> index = 0)
        \<and> getGridPosition index (getLayoutConfig count)
            = \<lparr>prow = index div cols (getLayoutConfig count) + 1,
               pcol = index mod cols (getLayoutConfig count) + 1\<rparr>
        \<and> (index' < count
             \<and> getGridPosition index (getLayoutConfig count)
                 = getGridPosition index' (getLayoutConfig count) \<longrightarrow> index = index'))"
proof -
  have a: "1 \<le> cols cfg \<and> (type cfg = ''single'' \<longrightarrow> index = 0) \<longrightarrow>
      getGridPosition index cfg
        = \<lparr>prow = index div cols cfg + 1, pcol = index mod cols cfg + 1\<rparr>"
    by (simp add: getGridPosition_def)
  have b: "1 \<le> cols cfg \<and> (type cfg = ''single'' \<longrightarrow> index = 0) \<longrightarrow>
      (type cfg = ''single'' \<longrightarrow> index' = 0)
      \<and> getGridPosition index cfg = getGridPosition index' cfg \<longrightarrow> index = index'"
    using getGridPosition_inj [of cfg index index'] by (cases "type cfg = ''single''") simp_all
  have c: "1 \<le> cols cfg \<and> (type cfg = ''single'' \<longrightarrow> index = 0) \<longrightarrow>
      cols cfg' = cols cfg \<and> (type cfg' = ''single'' \<longrightarrow> index = 0) \<longrightarrow>
      getGridPosition index cfg' = getGridPosition index cfg"
    by (simp add: getGridPosition_def)
  have d: "index < count \<longrightarrow>
        1 \<le> cols (getLayoutConfig count)
        \<and> (type (getLayoutConfig count) = ''single'' \<longrightarrow> index = 0)"
    using getLayoutConfig_cols_pos [of count] by (simp add: getLayoutConfig_single)
  have e: "index < count \<longrightarrow>
        getGridPosition index (getLayoutConfig count)
            = \<lparr>prow = index div cols (getLayoutConfig count) + 1,
               pcol = index mod cols (getLayoutConfig count) + 1\<rparr>
        \<and> (index' < count
             \<and> getGridPosition index (getLayoutConfig count)
                 = getGridPosition index' (getLayoutConfig count) \<longrightarrow> index = index')"
    using getGridPosition_layout [of index count]
      getGridPosition_layout_inj [of index count index']
    by blast
  from a b c d e show ?thesis by blast
qed

theorem grid_position_row_major_witness:
  "getGridPosition 7 \<lparr>rows = 3, cols = 3, type = ''complex''\<rparr> = \<lparr>prow = 3, pcol = 2\<rparr>
   \<and> getGridPosition 0 (getLayoutConfig 1) = \<lparr>prow = 1, pcol = 1\<rparr>
   \<and> getGridPosition 4 (getLayoutConfig 5) = \<lparr>prow = 2, pcol = 2\<rparr>"
proof -
  have "getGridPosition 7 \<lparr>rows = 3, cols = 3, type = ''complex''\<rparr> = \<lparr>prow = 3, pcol = 2\<rparr>"
    using grid_position_row_major
      [of "\<lparr>rows = 3, cols = 3, type = ''complex''\<rparr>" 7 8
          "\<lparr>rows = 3, cols = 3, type = ''complex''\<rparr>" 9]
    by simp
  moreover have "getGridPosition 0 (getLayoutConfig 1) = \<lparr>prow = 1, pcol = 1\<rparr>"
    using grid_position_row_major [of "getLayoutConfig 1" 0 0 "getLayoutConfig 1" 1]
    by (simp add: getLayoutConfig_def)
  moreover have "getGridPosition 4 (getLayoutConfig 5) = \<lparr>prow = 2, pcol = 2\<rparr>"
    using grid_position_row_major [of "getLayoutConfig 5" 4 3 "getLayoutConfig 5" 5]
    by (simp add: getLayoutConfig_def)
  ultimately show ?thesis by simp
qed

section \<open>Claims about the photo collection\<close>

text \<open>
  C8.  \<open>removePhoto id\<close> keeps the photos whose id differs from \<open>id\<close>, each as it was
  and in the original order, and drops every photo with that id: the result is a
  subsequence of the collection, holds no photo with that id, and is shorter by the
  number of photos with that id.  When no photo has the id the collection is unchanged.
\<close>

theorem removePhoto_exact:
  "subseq (removePhoto i prev) prev
   \<and> list_all (\<lambda>photo. ident photo \<noteq> i) (removePhoto i prev)
   \<and> length (removePhoto i prev) + length (filter (\<lambda>photo. ident photo = i) prev) = length prev
   \<and> (list_all (\<lambda>photo. ident photo \<noteq> i) prev \<longrightarrow> removePhoto i prev = prev)"
proof -
  have "subseq (removePhoto i prev) prev"
    by (simp add: removePhoto_def)
  moreover have "list_all (\<lambda>photo. ident photo \<noteq> i) (removePhoto i prev)"
    by (simp add: removePhoto_def list_all_iff)
  moreover have "length (removePhoto i prev) + length (filter (\<lambda>photo. ident photo = i) prev)
      = length prev"
    using sum_length_filter_compl [of "\<lambda>photo. ident photo = i" prev]
    by (simp add: removePhoto_def)
  moreover have "list_all (\<lambda>photo. ident photo \<noteq> i) prev \<longrightarrow> removePhoto i prev = prev"
    by (simp add: removePhoto_def list_all_iff)
  ultimately show ?thesis by blast
qed

theorem removePhoto_exact_witness:
  "removePhoto (3::int) [\<lparr>ident = 1, src = ''a''\<rparr>, \<lparr>ident = 2, src = ''b''\<rparr>]
     = [\<lparr>ident = 1, src = ''a''\<rparr>, \<lparr>ident = 2, src = ''b''\<rparr>]
   \<and> length (removePhoto (1::int)
        [\<lparr>ident = 1, src = ''a''\<rparr>, \<lparr>ident = 2, src = ''b''\<rparr>, \<lparr>ident = 1, src = ''c''\<rparr>]) = 1"
proof -
  have "removePhoto (3::int) [\<lparr>ident = 1, src = ''a''\<rparr>, \<lparr>ident = 2, src = ''b''\<rparr>]
     = [\<lparr>ident = 1, src = ''a''\<rparr>, \<lparr>ident = 2, src = ''b''\<rparr>]"
    using removePhoto_exact [of "3::int" "[\<lparr>ident = 1, src = ''a''\<rparr>, \<lparr>ident = 2, src = ''b''\<rparr>]"]
    by simp
  moreover have "length (removePhoto (1::int)
        [\<lparr>ident = 1, src = ''a''\<rparr>, \<lparr>ident = 2, src = ''b''\<rparr>, \<lparr>ident = 1, src = ''c''\<rparr>]) = 1"
    using removePhoto_exact [of "1::int"
        "[\<lparr>ident = 1, src = ''a''\<rparr>, \<lparr>ident = 2, src = ''b''\<rparr>, \<lparr>ident = 1, src = ''c''\<rparr>]"]
    by simp
  ultimately show ?thesis by simp
qed

text \<open>
  C9 fails on the code.  Two captures whose handlers read the same clock value leave two
  photos with the same id in the collection, and removing by that id then removes both.
  The same happens for two \<open>addPhoto\<close> calls that read the same clock value and draw the
  same random number, whatever the addition computes.
\<close>

theorem capture_ids_collide:
  "map ident (capturePhoto 1700000000000 (Some ''b'') (capturePhoto 1700000000000 (Some ''a'') []))
     = [1700000000000, 1700000000000]
   \<and> \<not> distinct (map ident
         (capturePhoto 1700000000000 (Some ''b'') (capturePhoto 1700000000000 (Some ''a'') [])))
   \<and> removePhoto 1700000000000
        (capturePhoto 1700000000000 (Some ''b'') (capturePhoto 1700000000000 (Some ''a'') [])) = []
   \<and> \<not> distinct (map ident (addPhoto js_add now rnd s2 (addPhoto js_add now rnd s1 [])))"
  by (simp add: capturePhoto_def removePhoto_def addPhoto_def)


section \<open>The placement loop\<close>



lemma next_free_free: "next_free g occ r c \<notin> set occ"
proof (induction g occ r c rule: next_free.induct)
  case (1 g occ r c)
  show ?case
  proof (cases "(r, c) \<in> set occ")
    case False
    then show ?thesis by (subst next_free.simps) simp
  next
    case True
    then show ?thesis using "1.IH" by (subst next_free.simps) simp
  qed
qed







lemma advance_fields:
  "layouts (advance g st) = layouts st" "occupiedCells (advance g st) = occupiedCells st"
  by (simp_all add: advance_def)




lemma place_length: "length (layouts (place g pat st)) = Suc (length (layouts st))"
  by (simp add: place_def Let_def advance_fields split: prod.splits)

lemma mosaic_loop_length:
  "length (layouts (mosaic_loop g patterns i k st)) = length (layouts st) + k"
  by (induction k arbitrary: i st) (simp_all add: place_length)




lemma generateMosaicLayout_loop:
  assumes "n \<noteq> 1" "n \<noteq> 2" "n \<noteq> 3"
  shows "generateMosaicLayout n vc
     = layouts (mosaic_loop (getResponsiveGridSize n vc)
                  (if vc = Mobile then mobile_patterns else wide_patterns) 0 n fresh_locals)"
  using assms by (simp add: generateMosaicLayout_def Let_def)

lemma special_plans:
  "generateMosaicLayout 1 Mobile
     = [\<lparr>size = ''large'', row = 1, col = 1, rowSpan = 2, colSpan = 2\<rparr>]"
  "generateMosaicLayout 1 Tablet
     = [\<lparr>size = ''large'', row = 1, col = 1, rowSpan = 4, colSpan = 4\<rparr>]"
  "generateMosaicLayout 1 Laptop
     = [\<lparr>size = ''large'', row = 1, col = 1, rowSpan = 4, colSpan = 4\<rparr>]"
  "generateMosaicLayout 1 Desktop
     = [\<lparr>size = ''large'', row = 1, col = 1, rowSpan = 4, colSpan = 4\<rparr>]"
  "generateMosaicLayout 2 Mobile
     = [\<lparr>size = ''medium'', row = 1, col = 1, rowSpan = 1, colSpan = 2\<rparr>,
        \<lparr>size = ''medium'', row = 2, col = 1, rowSpan = 1, colSpan = 2\<rparr>]"
  "generateMosaicLayout 2 Tablet
     = [\<lparr>size = ''large'', row = 1, col = 1, rowSpan = 3, colSpan = 1\<rparr>,
        \<lparr>size = ''large'', row = 1, col = 2, rowSpan = 3, colSpan = 1\<rparr>]"
  "generateMosaicLayout 2 Laptop
     = [\<lparr>size = ''large'', row = 1, col = 1, rowSpan = 4, colSpan = 2\<rparr>,
        \<lparr>size = ''large'', row = 1, col = 3, rowSpan = 4, colSpan = 2\<rparr>]"
  "generateMosaicLayout 2 Desktop
     = [\<lparr>size = ''large'', row = 1, col = 1, rowSpan = 4, colSpan = 2\<rparr>,
        \<lparr>size = ''large'', row = 1, col = 3, rowSpan = 4, colSpan = 2\<rparr>]"
  "generateMosaicLayout 3 Mobile
     = [\<lparr>size = ''medium'', row = 1, col = 1, rowSpan = 1, colSpan = 2\<rparr>,
        \<lparr>size = ''small'', row = 2, col = 1, rowSpan = 1, colSpan = 1\<rparr>,
        \<lparr>size = ''small'', row = 2, col = 2, rowSpan = 1, colSpan = 1\<rparr>]"
  "generateMosaicLayout 3 Tablet
     = [\<lparr>size = ''large'', row = 1, col = 1, rowSpan = 1, colSpan = 1\<rparr>,
        \<lparr>size = ''medium'', row = 1, col = 2, rowSpan = 1, colSpan = 2\<rparr>,
        \<lparr>size = ''medium'', row = 3, col = 2, rowSpan = 1, colSpan = 2\<rparr>]"
  "generateMosaicLayout 3 Laptop
     = [\<lparr>size = ''large'', row = 1, col = 1, rowSpan = 2, colSpan = 2\<rparr>,
        \<lparr>size = ''medium'', row = 1, col = 3, rowSpan = 1, colSpan = 2\<rparr>,
        \<lparr>size = ''medium'', row = 3, col = 3, rowSpan = 1, colSpan = 2\<rparr>]"
  "generateMosaicLayout 3 Desktop
     = [\<lparr>size = ''large'', row = 1, col = 1, rowSpan = 2, colSpan = 2\<rparr>,
        \<lparr>size = ''medium'', row = 1, col = 3, rowSpan = 1, colSpan = 2\<rparr>,
        \<lparr>size = ''medium'', row = 3, col = 3, rowSpan = 1, colSpan = 2\<rparr>]"
  by code_simp+

lemma special_sizes:
  "getResponsiveGridSize 1 Mobile = 2" "getResponsiveGridSize 1 Tablet = 3"
  "getResponsiveGridSize 1 Laptop = 4" "getResponsiveGridSize 1 Desktop = 4"
  "getResponsiveGridSize 2 Mobile = 2" "getResponsiveGridSize 2 Tablet = 3"
  "getResponsiveGridSize 2 Laptop = 4" "getResponsiveGridSize 2 Desktop = 4"
  "getResponsiveGridSize 3 Mobile = 2" "getResponsiveGridSize 3 Tablet = 3"
  "getResponsiveGridSize 3 Laptop = 4" "getResponsiveGridSize 3 Desktop = 4"
  by code_simp+






section \<open>Claims about the mosaic placer\<close>

text \<open>
  C3.  \<open>generateMosaicLayout\<close> is total: the cursor search \<open>next_free\<close> and the
  placement loop are defined with their termination proved, and the plan it returns for
  \<open>photoCount\<close> photos has exactly \<open>photoCount\<close> placements, on every viewport class.
  From any cursor and any occupancy set the cursor search stops at a cell that is not
  occupied.
\<close>

theorem mosaic_length:
  "length (generateMosaicLayout photoCount screenSize) = photoCount
   \<and> next_free gridSize occ r c \<notin> set occ"
proof -
  have "length (generateMosaicLayout photoCount screenSize) = photoCount"
  proof (cases "photoCount = 1 \<or> photoCount = 2 \<or> photoCount = 3")
    case True
    then show ?thesis by (cases screenSize) (auto simp: special_plans [unfolded One_nat_def])
  next
    case False
    then show ?thesis
      by (simp add: generateMosaicLayout_loop mosaic_loop_length fresh_locals_def)
  qed
  then show ?thesis using next_free_free by simp
qed




text \<open>
  C6 fails on the code for the tablet class.  One photo gets a single rectangle anchored
  at \<open>(1, 1)\<close>; on mobile, laptop and desktop its spans equal the grid size, but on a
  tablet the spans are the constant 4 while the grid size is 3.
\<close>

theorem single_photo_span:
  "generateMosaicLayout 1 Tablet
     = [\<lparr>size = ''large'', row = 1, col = 1, rowSpan = 4, colSpan = 4\<rparr>]
   \<and> getResponsiveGridSize 1 Tablet = 3
   \<and> generateMosaicLayout 1 Mobile
     = [\<lparr>size = ''large'', row = 1, col = 1, rowSpan = getResponsiveGridSize 1 Mobile,
         colSpan = getResponsiveGridSize 1 Mobile\<rparr>]
   \<and> generateMosaicLayout 1 Laptop
     = [\<lparr>size = ''large'', row = 1, col = 1, rowSpan = getResponsiveGridSize 1 Laptop,
         colSpan = getResponsiveGridSize 1 Laptop\<rparr>]
   \<and> generateMosaicLayout 1 Desktop
     = [\<lparr>size = ''large'', row = 1, col = 1, rowSpan = getResponsiveGridSize 1 Desktop,
         colSpan = getResponsiveGridSize 1 Desktop\<rparr>]"
  by (simp add: special_plans [unfolded One_nat_def] special_sizes [unfolded One_nat_def])

end
